theory Spec2Isabelle
  imports Main
begin

section \<open>Data model of \<open>ku-research/main.go\<close>\<close>

text \<open>
  Go's \<open>int\<close> fields are only ever compared for equality (identifiers) or
  carried along (the year), so they are modelled as \<open>int\<close>. Go strings are
  byte sequences, modelled as \<open>string\<close>. Two fields are renamed: \<open>Field\<close> of
  \<open>ResearchPaper\<close> is \<open>Field_of_study\<close>, and \<open>UserID\<close> of \<open>WorkspaceUser\<close> is
  \<open>MemberUserID\<close>, the plain names being taken.
\<close>

record ResearchPaper =
  ID :: string
  Title :: string
  Authors :: string
  Abstract :: string
  CoverImage :: string
  PublishedYear :: int
  Field_of_study :: string
  Classifications :: "string list"
  DOI :: string
  Journal :: string
  UserID :: int
  IsPublic :: bool
  PublicOption :: string
  WorkspaceSiteID :: int

record WorkspaceUser =
  WorkspaceID :: int
  MemberUserID :: int

text \<open>The package-level variables \<open>papers\<close>, \<open>workspaceUsers\<close>, \<open>siteUsers\<close>.\<close>

record globals =
  papers :: "ResearchPaper list"
  workspaceUsers :: "WorkspaceUser list"
  siteUsers :: "int list"

section \<open>Visibility: \<open>hasAccess\<close>\<close>

text \<open>The loop \<open>for _, siteUserID := range siteUsers\<close> with its early return.\<close>

fun site_scan :: "int list \<Rightarrow> int \<Rightarrow> bool" where
  "site_scan [] userID = False"
| "site_scan (siteUserID # rest) userID =
     (if siteUserID = userID then True else site_scan rest userID)"

text \<open>The loop \<open>for _, workspaceUser := range workspaceUsers\<close> with its early return.\<close>

fun workspace_scan :: "WorkspaceUser list \<Rightarrow> int \<Rightarrow> int \<Rightarrow> bool" where
  "workspace_scan [] wsid userID = False"
| "workspace_scan (workspaceUser # rest) wsid userID =
     (if WorkspaceID workspaceUser = wsid \<and> MemberUserID workspaceUser = userID
      then True else workspace_scan rest wsid userID)"

definition hasAccess :: "globals \<Rightarrow> ResearchPaper \<Rightarrow> int \<Rightarrow> bool" where
  "hasAccess g paper userID =
     (if UserID paper = userID then True
      else if \<not> IsPublic paper then False
      else if PublicOption paper = ''everyone'' then True
      else if PublicOption paper = ''site'' then site_scan (siteUsers g) userID
      else if PublicOption paper = ''workspace''
        then workspace_scan (workspaceUsers g) (WorkspaceSiteID paper) userID
      else False)"

text \<open>
  The decision rules as the specification words them, over a membership index
  given as a site-membership set and a workspace-membership relation.
\<close>

definition CanAccess_rules ::
  "ResearchPaper \<Rightarrow> int \<Rightarrow> int set \<Rightarrow> (int \<times> int) set \<Rightarrow> bool" where
  "CanAccess_rules D S site_members workspace_members =
     (if UserID D = S then True
      else if IsPublic D = False then False
      else if PublicOption D = ''everyone'' then True
      else if PublicOption D = ''site'' then S \<in> site_members
      else if PublicOption D = ''workspace'' then (WorkspaceSiteID D, S) \<in> workspace_members
      else False)"

definition site_membership :: "globals \<Rightarrow> int set" where
  "site_membership g = set (siteUsers g)"

definition workspace_membership :: "globals \<Rightarrow> (int \<times> int) set" where
  "workspace_membership g =
     set (map (\<lambda>w. (WorkspaceID w, MemberUserID w)) (workspaceUsers g))"

section \<open>Sample data\<close>

definition getSampleWorkspaceUsers :: "WorkspaceUser list" where
  "getSampleWorkspaceUsers =
     [\<lparr>WorkspaceID = 1, MemberUserID = 2\<rparr>,
      \<lparr>WorkspaceID = 3, MemberUserID = 2\<rparr>,
      \<lparr>WorkspaceID = 1, MemberUserID = 3\<rparr>,
      \<lparr>WorkspaceID = 3, MemberUserID = 3\<rparr>,
      \<lparr>WorkspaceID = 9, MemberUserID = 3\<rparr>,
      \<lparr>WorkspaceID = 1, MemberUserID = 4\<rparr>,
      \<lparr>WorkspaceID = 3, MemberUserID = 4\<rparr>,
      \<lparr>WorkspaceID = 8, MemberUserID = 4\<rparr>]"

definition getSampleSiteUsers :: "int list" where
  "getSampleSiteUsers = [1, 2, 3, 4]"

definition getSamplePapers :: "ResearchPaper list" where
  "getSamplePapers =
     [\<lparr>ID = ''1'',
       Title = ''Quantum Computing: Recent Advances and Future Directions'',
       Authors = ''Dr. Richard Feynman, Dr. Lisa Chen'',
       Abstract = ''This paper reviews recent developments in quantum computing, focusing on quantum supremacy experiments and potential applications in cryptography, optimization, and simulation of quantum systems.'',
       CoverImage = ''https://images.unsplash.com/photo-1635070041078-e363dbe005cb?ixlib=rb-4.0.3&ixid=M3wxMjA3fDB8MHxwaG90by1wYWdlfHx8fGVufDB8fHx8fA%3D%3D&auto=format&fit=crop&w=2070&q=80'',
       PublishedYear = 2023,
       Field_of_study = ''Computer Science'',
       Classifications = [''Quantum Computing'', ''Theoretical Physics'', ''Cryptography''],
       DOI = ''10.1038/s41586-019-1666-5'',
       Journal = ''Nature Quantum Information'',
       UserID = 1,
       IsPublic = True,
       PublicOption = ''everyone'',
       WorkspaceSiteID = 0\<rparr>]"

text \<open>The package-level state once \<open>main\<close> has initialised it.\<close>

definition init_globals :: globals where
  "init_globals =
     \<lparr>papers = getSamplePapers,
      workspaceUsers = getSampleWorkspaceUsers,
      siteUsers = getSampleSiteUsers\<rparr>"

section \<open>Query: \<open>filterAccessiblePapers\<close> and the \<open>/get-research\<close> handler\<close>

text \<open>
  The loop of \<open>filterAccessiblePapers\<close>: the result slice starts empty and
  every accessible paper is appended to it.
\<close>

fun filter_loop ::
  "globals \<Rightarrow> ResearchPaper list \<Rightarrow> int \<Rightarrow> ResearchPaper list \<Rightarrow> ResearchPaper list" where
  "filter_loop g [] userID accessiblePapers = accessiblePapers"
| "filter_loop g (paper # rest) userID accessiblePapers =
     filter_loop g rest userID
       (if hasAccess g paper userID then accessiblePapers @ [paper] else accessiblePapers)"

definition filterAccessiblePapers ::
  "globals \<Rightarrow> ResearchPaper list \<Rightarrow> int \<Rightarrow> ResearchPaper list" where
  "filterAccessiblePapers g allPapers userID = filter_loop g allPapers userID []"

datatype response =
    BadRequest string
  | OkPapers "ResearchPaper list"
  | Created string ResearchPaper

text \<open>
  A handler receives what \<open>BodyParser\<close> made of the request body (\<open>None\<close> when
  it returned an error) and the package-level state; it returns the response
  and the state it leaves behind.
\<close>

definition get_research :: "int option \<Rightarrow> globals \<Rightarrow> response \<times> globals" where
  "get_research request g =
     (case request of
        None \<Rightarrow> (BadRequest ''Invalid request'', g)
      | Some userID \<Rightarrow> (OkPapers (filterAccessiblePapers g (papers g) userID), g))"

section \<open>Insert: \<open>generateID\<close> and the \<open>/add-paper\<close> handler\<close>

text \<open>The decimal digit \<open>d\<close>, for \<open>d\<close> below 10, the only use made of it.\<close>

definition digit_char :: "nat \<Rightarrow> char" where
  "digit_char d = ''0123456789'' ! d"

text \<open>\<open>fmt.Sprintf("%d", n)\<close> for a non-negative \<open>n\<close>.\<close>

function format_decimal :: "nat \<Rightarrow> string" where
  "format_decimal n =
     (if n < 10 then [digit_char n]
      else format_decimal (n div 10) @ [digit_char (n mod 10)])"
  by pat_completeness auto
termination
  by (relation "measure id") auto

declare format_decimal.simps [simp del]

definition generateID :: "globals \<Rightarrow> string" where
  "generateID g = format_decimal (length (papers g) + 1)"

text \<open>
  The handler up to and including \<open>generateID()\<close> (lines 101 to 118): it
  answers itself on a parse or validation error, otherwise it yields the paper
  with its ID populated. The state is read (under \<open>mu\<close>, inside
  \<open>generateID\<close>) but not written.
\<close>

definition add_paper_prepare :: "ResearchPaper option \<Rightarrow> globals \<Rightarrow> response + ResearchPaper" where
  "add_paper_prepare body g =
     (case body of
        None \<Rightarrow> Inl (BadRequest ''Invalid paper data'')
      | Some newPaper \<Rightarrow>
          if Title newPaper = [] \<or> Authors newPaper = [] \<or> Abstract newPaper = []
          then Inl (BadRequest ''Missing required fields'')
          else if ID newPaper = [] then Inr (newPaper\<lparr>ID := generateID g\<rparr>)
          else Inr newPaper)"

text \<open>The rest of the handler (lines 121 to 129): append under \<open>mu\<close> and answer.\<close>

definition add_paper_commit :: "ResearchPaper \<Rightarrow> globals \<Rightarrow> response \<times> globals" where
  "add_paper_commit newPaper g =
     (Created ''Paper added successfully'' newPaper,
      g\<lparr>papers := papers g @ [newPaper]\<rparr>)"

text \<open>The handler run without interference from other requests.\<close>

definition add_paper :: "ResearchPaper option \<Rightarrow> globals \<Rightarrow> response \<times> globals" where
  "add_paper body g =
     (case add_paper_prepare body g of
        Inl r \<Rightarrow> (r, g)
      | Inr newPaper \<Rightarrow> add_paper_commit newPaper g)"

text \<open>
  What \<open>var newPaper ResearchPaper\<close> holds before \<open>BodyParser\<close> fills in the
  fields of the body: Go's zero value. A field the body leaves out keeps it,
  so an absent \<open>workspaceSiteID\<close> is the integer 0 and an absent \<open>id\<close> the
  empty string.
\<close>

definition zero_ResearchPaper :: ResearchPaper where
  "zero_ResearchPaper =
     \<lparr>ID = [], Title = [], Authors = [], Abstract = [], CoverImage = [],
      PublishedYear = 0, Field_of_study = [], Classifications = [], DOI = [],
      Journal = [], UserID = 0, IsPublic = False, PublicOption = [],
      WorkspaceSiteID = 0\<rparr>"

subsection \<open>Concurrent requests\<close>

text \<open>
  Every access to \<open>papers\<close> happens under the mutex \<open>mu\<close>, so a run of
  concurrent \<open>/add-paper\<close> requests is an interleaving of their critical
  sections. A request has two: the one inside \<open>generateID\<close> and the one
  around \<open>append\<close>; the mutex is released in between. What a request does
  before its first critical section touches only its own variables, so it is
  folded into the first step.
\<close>

datatype request_thread =
    Parsed "ResearchPaper option"
  | Ready ResearchPaper
  | Replied response

fun thread_step :: "request_thread \<Rightarrow> globals \<Rightarrow> request_thread \<times> globals" where
  "thread_step (Parsed body) g =
     (case add_paper_prepare body g of
        Inl r \<Rightarrow> (Replied r, g)
      | Inr newPaper \<Rightarrow> (Ready newPaper, g))"
| "thread_step (Ready newPaper) g =
     (case add_paper_commit newPaper g of (r, g') \<Rightarrow> (Replied r, g'))"
| "thread_step (Replied r) g = (Replied r, g)"

text \<open>
  A schedule names, step by step, the request that runs its next critical
  section; a name outside the pool, or of a request that has answered, is a
  step that does nothing.
\<close>

fun run_schedule :: "nat list \<Rightarrow> request_thread list \<Rightarrow> globals \<Rightarrow> request_thread list \<times> globals" where
  "run_schedule [] ts g = (ts, g)"
| "run_schedule (i # sched) ts g =
     (if i < length ts
      then (case thread_step (ts ! i) g of (t', g') \<Rightarrow> run_schedule sched (ts[i := t']) g')
      else run_schedule sched ts g)"

subsection \<open>Reachable states\<close>


section \<open>Registration handshake: the retry loop of \<open>main\<close>\<close>

datatype event = Attempt nat | Sleep nat

datatype handshake = Registered | GaveUp

definition maxRetries :: nat where
  "maxRetries = 5"

text \<open>
  \<open>register_ok i\<close> tells whether the call of \<open>sdk.Register\<close> made in iteration
  \<open>i\<close> returns a nil error. The loop \<open>for i := range maxRetries\<close> is run from
  iteration \<open>i\<close> on, with the calls and sleeps made so far in \<open>log\<close>
  (attempts numbered \<open>i + 1\<close> as the source prints them, sleeps in seconds).
  Leaving by \<open>break\<close> is \<open>Registered\<close>, running out of iterations is \<open>GaveUp\<close>.
\<close>

function register_loop :: "(nat \<Rightarrow> bool) \<Rightarrow> nat \<Rightarrow> event list \<Rightarrow> event list \<times> handshake" where
  "register_loop register_ok i log =
     (if i < maxRetries then
        (if register_ok i then (log @ [Attempt (i + 1)], Registered)
         else if i < maxRetries - 1
           then register_loop register_ok (i + 1) (log @ [Attempt (i + 1), Sleep 2])
         else register_loop register_ok (i + 1) (log @ [Attempt (i + 1)]))
      else (log, GaveUp))"
  by pat_completeness auto
termination
  by (relation "measure (\<lambda>(register_ok, i, log). maxRetries - i)") auto

declare register_loop.simps [simp del]

definition registration :: "(nat \<Rightarrow> bool) \<Rightarrow> event list \<times> handshake" where
  "registration register_ok = register_loop register_ok 0 []"

text \<open>The number of calls of \<open>sdk.Register\<close> in a log.\<close>

fun attempts :: "event list \<Rightarrow> nat" where
  "attempts [] = 0"
| "attempts (Attempt k # es) = Suc (attempts es)"
| "attempts (Sleep d # es) = attempts es"

text \<open>
  The log the specification describes for \<open>n\<close> attempts: attempts 1 to \<open>n\<close> in
  sequence, a 2-unit wait between each two of them.
\<close>

fun spaced_attempts :: "nat \<Rightarrow> event list" where
  "spaced_attempts 0 = []"
| "spaced_attempts (Suc 0) = [Attempt 1]"
| "spaced_attempts (Suc (Suc n)) = spaced_attempts (Suc n) @ [Sleep 2, Attempt (Suc (Suc n))]"

section \<open>Auxiliary notions and concrete inputs\<close>

text \<open>
  The log at the head of iteration \<open>i\<close> when every earlier iteration failed
  and slept.
\<close>

fun log_before :: "nat \<Rightarrow> event list" where
  "log_before 0 = []"
| "log_before (Suc i) = log_before i @ [Attempt (Suc i), Sleep 2]"

text \<open>A body that passes parsing and validation.\<close>

definition accepts :: "ResearchPaper option \<Rightarrow> bool" where
  "accepts body =
     (case body of
        None \<Rightarrow> False
      | Some p \<Rightarrow> Title p \<noteq> [] \<and> Authors p \<noteq> [] \<and> Abstract p \<noteq> [])"

text \<open>The number of appends a request still owes the store (0 or 1).\<close>

fun pending :: "request_thread \<Rightarrow> nat" where
  "pending (Parsed body) = (if accepts body then 1 else 0)"
| "pending (Ready newPaper) = 1"
| "pending (Replied r) = 0"

text \<open>
  A store whose papers carry the IDs 1, 2, 3, ... in order, as the sample
  data does and as inserts without an ID keep it.
\<close>

definition numbered :: "ResearchPaper list \<Rightarrow> bool" where
  "numbered ps = (map ID ps = map (\<lambda>i. format_decimal (i + 1)) [0..<length ps])"

text \<open>A store of three papers, owned by 1, 2 and 3.\<close>

definition three_papers :: "ResearchPaper list" where
  "three_papers =
     [zero_ResearchPaper\<lparr>ID := ''a'', UserID := 1\<rparr>,
      zero_ResearchPaper\<lparr>ID := ''b'', UserID := 2\<rparr>,
      zero_ResearchPaper\<lparr>ID := ''c'', UserID := 3, IsPublic := True, PublicOption := ''site''\<rparr>]"

text \<open>A payload that passes validation and carries no ID.\<close>

definition valid_paper :: ResearchPaper where
  "valid_paper =
     zero_ResearchPaper\<lparr>Title := ''T'', Authors := ''A'', Abstract := ''B'', UserID := 5\<rparr>"


section \<open>Properties of the visibility decision\<close>

lemma site_scan_iff: "site_scan us userID \<longleftrightarrow> userID \<in> set us"
  by (induction us) auto

lemma workspace_scan_iff:
  "workspace_scan ws wsid userID \<longleftrightarrow>
     (wsid, userID) \<in> set (map (\<lambda>w. (WorkspaceID w, MemberUserID w)) ws)"
  by (induction ws) auto

lemma hasAccess_CanAccess:
  "hasAccess g D S = CanAccess_rules D S (site_membership g) (workspace_membership g)"
  by (simp add: hasAccess_def CanAccess_rules_def site_membership_def
      workspace_membership_def site_scan_iff workspace_scan_iff)

text \<open>
  C1. \<open>hasAccess\<close> computes the ordered, first-match-wins rules of the
  specification: owner allows; otherwise not shared denies; scope
  \<open>everyone\<close> allows; scope \<open>site\<close> allows exactly the site members; scope
  \<open>workspace\<close> allows exactly the subjects paired with the qualifier in the
  workspace relation; every other scope denies. In particular the owner is
  always allowed, and a shared document with an unrecognised or empty scope is
  denied to every non-owner.
\<close>

theorem hasAccess_rules:
  "hasAccess g D S = CanAccess_rules D S (site_membership g) (workspace_membership g)
   \<and> (UserID D = S \<longrightarrow> hasAccess g D S)
   \<and> (UserID D \<noteq> S \<and> IsPublic D \<and> PublicOption D \<noteq> ''everyone''
        \<and> PublicOption D \<noteq> ''site'' \<and> PublicOption D \<noteq> ''workspace''
      \<longrightarrow> \<not> hasAccess g D S)"
  by (simp add: hasAccess_def CanAccess_rules_def site_membership_def
      workspace_membership_def site_scan_iff workspace_scan_iff)

text \<open>
  The owner of a private paper sees it; a stranger does not see a shared paper
  whose scope is empty, nor one whose scope is spelled \<open>Everyone\<close>.
\<close>

theorem hasAccess_rules_witness:
  "hasAccess init_globals (zero_ResearchPaper\<lparr>UserID := 7\<rparr>) 7
   \<and> \<not> hasAccess init_globals (zero_ResearchPaper\<lparr>UserID := 7, IsPublic := True\<rparr>) 2
   \<and> \<not> hasAccess init_globals
        (zero_ResearchPaper\<lparr>UserID := 7, IsPublic := True, PublicOption := ''Everyone''\<rparr>) 2"
proof -
  have owner: "hasAccess init_globals (zero_ResearchPaper\<lparr>UserID := 7\<rparr>) 7"
    by (rule hasAccess_rules [THEN conjunct2, THEN conjunct1, THEN mp])
      (simp add: zero_ResearchPaper_def)
  have unscoped:
    "\<not> hasAccess init_globals (zero_ResearchPaper\<lparr>UserID := 7, IsPublic := True\<rparr>) 2"
    by (rule hasAccess_rules [THEN conjunct2, THEN conjunct2, THEN mp])
      (simp add: zero_ResearchPaper_def)
  have misspelt:
    "\<not> hasAccess init_globals
        (zero_ResearchPaper\<lparr>UserID := 7, IsPublic := True, PublicOption := ''Everyone''\<rparr>) 2"
    by (rule hasAccess_rules [THEN conjunct2, THEN conjunct2, THEN mp])
      (simp add: zero_ResearchPaper_def)
  from owner unscoped misspelt show ?thesis by blast
qed

text \<open>
  C8. Two documents that agree on owner, sharing flag, scope and scope
  qualifier get the same decision for every subject and membership index,
  however their other fields differ.
\<close>

theorem hasAccess_ignores_descriptive_fields:
  "UserID D1 = UserID D2 \<Longrightarrow> IsPublic D1 = IsPublic D2 \<Longrightarrow>
   PublicOption D1 = PublicOption D2 \<Longrightarrow> WorkspaceSiteID D1 = WorkspaceSiteID D2 \<Longrightarrow>
   hasAccess g D1 S = hasAccess g D2 S"
  by (simp add: hasAccess_def)

text \<open>
  The sample paper and a paper with every descriptive field blanked or
  changed, both owned by 1 and shared with everyone.
\<close>

theorem hasAccess_ignores_descriptive_fields_witness:
  "hasAccess init_globals (getSamplePapers ! 0) 9 =
   hasAccess init_globals
     (zero_ResearchPaper\<lparr>Title := ''Other'', PublishedYear := 1999, Classifications := [''x''],
        UserID := 1, IsPublic := True, PublicOption := ''everyone''\<rparr>) 9"
  by (rule hasAccess_ignores_descriptive_fields)
    (simp_all add: getSamplePapers_def zero_ResearchPaper_def)







section \<open>Properties of the query\<close>

lemma filter_loop_filter:
  "filter_loop g ps userID acc = acc @ filter (\<lambda>paper. hasAccess g paper userID) ps"
  by (induction ps arbitrary: acc) simp_all

text \<open>
  C2. The query returns the order-preserving filter of the stored sequence by
  the visibility predicate: exactly the papers \<open>hasAccess\<close> (equally, the
  specification's rules) allows, in the order of the store.
\<close>

theorem get_research_filter:
  "filterAccessiblePapers g (papers g) S = filter (\<lambda>D. hasAccess g D S) (papers g)
   \<and> get_research (Some S) g =
       (OkPapers (filter (\<lambda>D. CanAccess_rules D S (site_membership g) (workspace_membership g))
          (papers g)), g)"
  by (simp add: get_research_def filterAccessiblePapers_def filter_loop_filter hasAccess_CanAccess)

text \<open>
  Subject 2 on a store of three papers: a private paper of 1 is dropped, the
  own paper and the site-wide paper of 3 are kept in their order.
\<close>

theorem get_research_filter_witness:
  "get_research (Some 2) (init_globals\<lparr>papers := three_papers\<rparr>) =
     (OkPapers [three_papers ! 1, three_papers ! 2], init_globals\<lparr>papers := three_papers\<rparr>)"
proof -
  have "filter (\<lambda>D. CanAccess_rules D 2 (site_membership (init_globals\<lparr>papers := three_papers\<rparr>))
            (workspace_membership (init_globals\<lparr>papers := three_papers\<rparr>)))
          (papers (init_globals\<lparr>papers := three_papers\<rparr>))
        = [three_papers ! 1, three_papers ! 2]"
    by (simp add: CanAccess_rules_def init_globals_def three_papers_def zero_ResearchPaper_def
        site_membership_def getSampleSiteUsers_def)
  with get_research_filter [of "init_globals\<lparr>papers := three_papers\<rparr>" 2, THEN conjunct2]
  show ?thesis by (simp only:)
qed

text \<open>
  C9. The query leaves the state as it found it, so a second call right after
  the first, with no insert in between, gives the same ordered answer.
\<close>

theorem get_research_idempotent:
  "snd (get_research request g) = g
   \<and> get_research request (snd (get_research request g)) = get_research request g"
  by (simp add: get_research_def split: option.split)

theorem get_research_idempotent_witness:
  "get_research (Some 5) (snd (get_research (Some 5) init_globals)) =
     get_research (Some 5) init_globals"
  by (rule get_research_idempotent [THEN conjunct2])

section \<open>Properties of the insert\<close>

lemma generateID_init: "generateID init_globals = ''2''"
  by (simp add: generateID_def init_globals_def getSamplePapers_def format_decimal.simps
      digit_char_def)

text \<open>
  C5. A payload whose title, authors or abstract is empty is answered with the
  validation error before \<open>generateID\<close> or \<open>append\<close> is reached: the state is
  unchanged and no paper, hence no ID, is returned. The visibility fields of
  the payload play no part.
\<close>

theorem add_paper_rejects_blank:
  "Title p = [] \<or> Authors p = [] \<or> Abstract p = [] \<Longrightarrow>
   add_paper_prepare (Some p) g = Inl (BadRequest ''Missing required fields'')
   \<and> add_paper (Some p) g = (BadRequest ''Missing required fields'', g)"
  by (simp add: add_paper_def add_paper_prepare_def)

theorem add_paper_rejects_blank_witness:
  "add_paper
     (Some (zero_ResearchPaper\<lparr>Title := ''T'', Authors := ''A'', UserID := 3,
        IsPublic := True, PublicOption := ''site''\<rparr>)) init_globals
   = (BadRequest ''Missing required fields'', init_globals)"
  by (rule add_paper_rejects_blank [THEN conjunct2]) (simp add: zero_ResearchPaper_def)

text \<open>
  C10. A payload that passes validation is stored: the handler answers with
  the paper, its ID filled in by \<open>generateID\<close> when the body had none, and the
  new state is the old one with exactly that paper appended to \<open>papers\<close>.
  Conversely every successful insert came from such a payload and changes
  nothing else: the papers stored before keep their positions and values, and
  the membership data is untouched.
\<close>

theorem add_paper_appends:
  "(Title p \<noteq> [] \<and> Authors p \<noteq> [] \<and> Abstract p \<noteq> [] \<longrightarrow>
      add_paper (Some p) g =
        (Created ''Paper added successfully''
           (if ID p = [] then p\<lparr>ID := generateID g\<rparr> else p),
         g\<lparr>papers := papers g @ [if ID p = [] then p\<lparr>ID := generateID g\<rparr> else p]\<rparr>))
   \<and> (add_paper body g = (Created msg stored, g') \<longrightarrow>
      accepts body
      \<and> g' = g\<lparr>papers := papers g @ [stored]\<rparr>
      \<and> (\<forall>i < length (papers g). papers g' ! i = papers g ! i)
      \<and> length (papers g') = Suc (length (papers g))
      \<and> workspaceUsers g' = workspaceUsers g \<and> siteUsers g' = siteUsers g)"
proof (intro conjI impI)
  assume "Title p \<noteq> [] \<and> Authors p \<noteq> [] \<and> Abstract p \<noteq> []"
  then show "add_paper (Some p) g =
        (Created ''Paper added successfully''
           (if ID p = [] then p\<lparr>ID := generateID g\<rparr> else p),
         g\<lparr>papers := papers g @ [if ID p = [] then p\<lparr>ID := generateID g\<rparr> else p]\<rparr>)"
    by (simp add: add_paper_def add_paper_prepare_def add_paper_commit_def)
next
  assume "add_paper body g = (Created msg stored, g')"
  then have ok: "accepts body" and g': "g' = g\<lparr>papers := papers g @ [stored]\<rparr>"
    by (auto simp: add_paper_def add_paper_prepare_def add_paper_commit_def accepts_def
        split: option.splits if_splits)
  show "accepts body" by (rule ok)
  show "g' = g\<lparr>papers := papers g @ [stored]\<rparr>" by (rule g')
  show "\<forall>i < length (papers g). papers g' ! i = papers g ! i"
    by (simp add: g' nth_append)
  show "length (papers g') = Suc (length (papers g))" by (simp add: g')
  show "workspaceUsers g' = workspaceUsers g" by (simp add: g')
  show "siteUsers g' = siteUsers g" by (simp add: g')
qed

text \<open>
  The first insert into the initial store: the new paper gets the ID 2 and
  follows the sample paper, which stays in front.
\<close>

theorem add_paper_appends_witness:
  "add_paper (Some valid_paper) init_globals =
     (Created ''Paper added successfully'' (valid_paper\<lparr>ID := ''2''\<rparr>),
      init_globals\<lparr>papers := getSamplePapers @ [valid_paper\<lparr>ID := ''2''\<rparr>]\<rparr>)
   \<and> papers (snd (add_paper (Some valid_paper) init_globals)) ! 0 = papers init_globals ! 0"
proof -
  have stored: "add_paper (Some valid_paper) init_globals =
      (Created ''Paper added successfully''
         (if ID valid_paper = [] then valid_paper\<lparr>ID := generateID init_globals\<rparr> else valid_paper),
       init_globals\<lparr>papers := papers init_globals @
         [if ID valid_paper = [] then valid_paper\<lparr>ID := generateID init_globals\<rparr>
          else valid_paper]\<rparr>)"
    by (rule add_paper_appends [THEN conjunct1, THEN mp])
      (simp add: valid_paper_def zero_ResearchPaper_def)
  have no_id: "ID valid_paper = []"
    by (simp add: valid_paper_def zero_ResearchPaper_def)
  have first: "add_paper (Some valid_paper) init_globals =
     (Created ''Paper added successfully'' (valid_paper\<lparr>ID := ''2''\<rparr>),
      init_globals\<lparr>papers := getSamplePapers @ [valid_paper\<lparr>ID := ''2''\<rparr>]\<rparr>)"
    using stored by (simp add: no_id generateID_init) (simp add: init_globals_def)
  have frame: "\<forall>i < length (papers init_globals).
      papers (init_globals\<lparr>papers := getSamplePapers @ [valid_paper\<lparr>ID := ''2''\<rparr>]\<rparr>) ! i =
      papers init_globals ! i"
    by (rule add_paper_appends [THEN conjunct2, THEN mp, OF first,
          THEN conjunct2, THEN conjunct2, THEN conjunct1])
  have "0 < length (papers init_globals)"
    by (simp add: init_globals_def getSamplePapers_def)
  with frame have
    "papers (init_globals\<lparr>papers := getSamplePapers @ [valid_paper\<lparr>ID := ''2''\<rparr>]\<rparr>) ! 0 =
      papers init_globals ! 0"
    by blast
  then have "papers (snd (add_paper (Some valid_paper) init_globals)) ! 0 = papers init_globals ! 0"
    by (simp only: first snd_conv)
  with first show ?thesis by simp
qed

subsection \<open>Store-assigned IDs\<close>

lemma add_supplied_init:
  "add_paper (Some (valid_paper\<lparr>ID := ''3''\<rparr>)) init_globals =
     (Created ''Paper added successfully'' (valid_paper\<lparr>ID := ''3''\<rparr>),
      init_globals\<lparr>papers := getSamplePapers @ [valid_paper\<lparr>ID := ''3''\<rparr>]\<rparr>)"
  by (simp add: add_paper_def add_paper_prepare_def add_paper_commit_def valid_paper_def
      zero_ResearchPaper_def) (simp add: init_globals_def)

text \<open>
  C3. The ID the store assigns is the decimal of the current size plus one. It
  is not always fresh: on the initial store (one paper, ID 1) a paper supplied
  with the ID 3 is stored, and the next paper, sent without an ID, is assigned
  3 as well.
\<close>

theorem generateID_repeats_supplied_id:
  "ID valid_paper = []
   \<and> map ID (papers (snd (add_paper (Some (valid_paper\<lparr>ID := ''3''\<rparr>)) init_globals))) =
       [''1'', ''3'']
   \<and> fst (add_paper (Some valid_paper)
          (snd (add_paper (Some (valid_paper\<lparr>ID := ''3''\<rparr>)) init_globals))) =
       Created ''Paper added successfully'' (valid_paper\<lparr>ID := ''3''\<rparr>)"
  by (simp add: add_supplied_init)
    (simp add: add_paper_def add_paper_prepare_def add_paper_commit_def valid_paper_def
      zero_ResearchPaper_def generateID_def getSamplePapers_def format_decimal.simps digit_char_def)

text \<open>
  What \<open>generateID\<close> does achieve: decimal rendering is injective, so on a
  store numbered 1, 2, 3, ... the assigned ID is fresh, and inserts without an
  ID, run one after the other, keep the store numbered.
\<close>

lemma format_decimal_nonempty: "format_decimal n \<noteq> []"
  by (subst format_decimal.simps) simp

lemma digit_char_inj:
  assumes "a < 10" and "b < 10" and "digit_char a = digit_char b"
  shows "a = b"
proof -
  have digits: "\<And>d. d < 10 \<Longrightarrow> d \<in> {0, 1, 2, 3, 4, 5, 6, 7, 8, 9::nat}"
    by auto
  from digits [OF assms(1)] digits [OF assms(2)] assms(3) show ?thesis
    by (auto simp: digit_char_def)
qed

lemma format_decimal_inj: "format_decimal n = format_decimal m \<Longrightarrow> n = m"
proof (induction n arbitrary: m rule: format_decimal.induct)
  case (1 n)
  show ?case
  proof (cases "n < 10")
    case small_n: True
    show ?thesis
    proof (cases "m < 10")
      case True
      with small_n "1.prems" show ?thesis
        by (simp add: format_decimal.simps [of n] format_decimal.simps [of m] digit_char_inj)
    next
      case False
      with small_n "1.prems" show ?thesis
        by (simp add: format_decimal.simps [of n] format_decimal.simps [of m]
            format_decimal_nonempty [symmetric])
    qed
  next
    case big_n: False
    show ?thesis
    proof (cases "m < 10")
      case True
      with big_n "1.prems" show ?thesis
        by (simp add: format_decimal.simps [of n] format_decimal.simps [of m]
            format_decimal_nonempty)
    next
      case False
      with big_n "1.prems" have
        "format_decimal (n div 10) = format_decimal (m div 10)"
        and d: "digit_char (n mod 10) = digit_char (m mod 10)"
        by (simp_all add: format_decimal.simps [of n] format_decimal.simps [of m])
      with big_n "1.IH" have "n div 10 = m div 10" by simp
      moreover from d have "n mod 10 = m mod 10" by (simp add: digit_char_inj)
      ultimately show ?thesis by (metis div_mult_mod_eq)
    qed
  qed
qed

lemma numbered_sample: "numbered getSamplePapers"
  by (simp add: numbered_def getSamplePapers_def format_decimal.simps digit_char_def)

lemma generateID_fresh_numbered:
  assumes "numbered (papers g)"
  shows "generateID g \<notin> set (map ID (papers g))"
proof
  assume "generateID g \<in> set (map ID (papers g))"
  with assms have "generateID g \<in> (\<lambda>i. format_decimal (i + 1)) ` {0..<length (papers g)}"
    by (simp add: numbered_def)
  then obtain i where "i < length (papers g)"
    and "format_decimal (i + 1) = format_decimal (length (papers g) + 1)"
    by (auto simp: generateID_def)
  then show False
    using format_decimal_inj [of "i + 1" "length (papers g) + 1"] by simp
qed

lemma add_paper_numbered:
  assumes "numbered (papers g)" and "ID p = []"
  shows "numbered (papers (snd (add_paper (Some p) g)))"
  using assms
  by (simp add: add_paper_def add_paper_prepare_def add_paper_commit_def numbered_def
      generateID_def)

subsection \<open>Concurrent inserts\<close>

text \<open>
  C4. Two requests without an ID, run concurrently on the initial store: when
  both pass through \<open>generateID\<close> before either appends, both read the size 1
  and both are assigned the ID 2. Both papers are stored.
\<close>

theorem concurrent_inserts_share_id:
  "run_schedule [0, 1, 0, 1]
     [Parsed (Some valid_paper), Parsed (Some (valid_paper\<lparr>Title := ''U''\<rparr>))] init_globals =
   ([Replied (Created ''Paper added successfully'' (valid_paper\<lparr>ID := ''2''\<rparr>)),
     Replied (Created ''Paper added successfully'' (valid_paper\<lparr>Title := ''U'', ID := ''2''\<rparr>))],
    init_globals\<lparr>papers := getSamplePapers @
      [valid_paper\<lparr>ID := ''2''\<rparr>, valid_paper\<lparr>Title := ''U'', ID := ''2''\<rparr>]\<rparr>)"
  by (simp add: add_paper_prepare_def add_paper_commit_def valid_paper_def
      zero_ResearchPaper_def generateID_init)
    (simp add: init_globals_def)

text \<open>
  The other half of the claim holds under every schedule: each step keeps the
  sum of the store's size and the appends still owed, so once every request
  has answered, the store has grown by the number of accepted requests.
\<close>

lemma thread_step_pending:
  "thread_step t g = (t', g') \<Longrightarrow>
   length (papers g') + pending t' = length (papers g) + pending t"
  by (cases t)
    (auto simp: add_paper_prepare_def add_paper_commit_def accepts_def
      split: option.splits if_splits)

lemma sum_list_pending_update:
  "i < length ts \<Longrightarrow>
   sum_list (map pending (ts[i := t'])) + pending (ts ! i) = sum_list (map pending ts) + pending t'"
proof (induction ts arbitrary: i)
  case Nil
  then show ?case by simp
next
  case (Cons t ts)
  then show ?case by (cases i) auto
qed

lemma run_schedule_pending:
  "run_schedule sched ts g = (ts', g') \<Longrightarrow>
   length (papers g') + sum_list (map pending ts') = length (papers g) + sum_list (map pending ts)"
proof (induction sched arbitrary: ts g)
  case Nil
  then show ?case by simp
next
  case (Cons i sched)
  show ?case
  proof (cases "i < length ts")
    case False
    with Cons show ?thesis by simp
  next
    case True
    obtain t1 g1 where s: "thread_step (ts ! i) g = (t1, g1)"
      by (cases "thread_step (ts ! i) g")
    with True Cons.prems have "run_schedule sched (ts[i := t1]) g1 = (ts', g')"
      by simp
    then have "length (papers g') + sum_list (map pending ts') =
        length (papers g1) + sum_list (map pending (ts[i := t1]))"
      by (rule Cons.IH)
    with thread_step_pending [OF s] sum_list_pending_update [OF True, of t1]
    show ?thesis by linarith
  qed
qed

lemma sum_list_pending_all:
  "\<forall>t \<in> set ts. pending t = k \<Longrightarrow> sum_list (map pending ts) = k * length ts"
  by (induction ts) simp_all

lemma run_schedule_no_lost_insert:
  assumes run: "run_schedule sched ts g = (ts', g')"
    and valid: "\<forall>t \<in> set ts. \<exists>body. t = Parsed body \<and> accepts body"
    and answered: "\<forall>t \<in> set ts'. \<exists>r. t = Replied r"
  shows "length (papers g') = length (papers g) + length ts"
proof -
  from valid have "\<forall>t \<in> set ts. pending t = 1" by auto
  then have before: "sum_list (map pending ts) = length ts"
    using sum_list_pending_all [of ts 1] by simp
  from answered have "\<forall>t \<in> set ts'. pending t = 0" by auto
  then have after: "sum_list (map pending ts') = 0"
    using sum_list_pending_all [of ts' 0] by simp
  from run_schedule_pending [OF run] before after show ?thesis by simp
qed

text \<open>A request running alone takes its two steps one after the other.\<close>

lemma add_paper_two_steps:
  "run_schedule [0, 0] [Parsed body] g = ([Replied (fst (add_paper body g))], snd (add_paper body g))"
  by (cases "add_paper_prepare body g") (simp_all add: add_paper_def add_paper_commit_def)

section \<open>Properties of the registration handshake\<close>

lemma spaced_attempts_Suc: "spaced_attempts (Suc i) = log_before i @ [Attempt (Suc i)]"
  by (induction i) simp_all

lemma attempts_append: "attempts (es @ fs) = attempts es + attempts fs"
  by (induction es rule: attempts.induct) simp_all

lemma attempts_spaced: "attempts (spaced_attempts n) = n"
  by (induction n rule: spaced_attempts.induct) (simp_all add: attempts_append)

lemma register_loop_failed_step:
  assumes "\<not> register_ok n" and "n < maxRetries - 1"
  shows "register_loop register_ok n (log_before n) =
    register_loop register_ok (Suc n) (log_before (Suc n))"
proof -
  from assms(2) have "n < maxRetries" by simp
  with assms show ?thesis by (simp add: register_loop.simps [of _ n])
qed

lemma register_loop_success:
  assumes "i \<le> k" and "k < maxRetries" and "register_ok k" and "\<forall>j<k. \<not> register_ok j"
  shows "register_loop register_ok i (log_before i) = (spaced_attempts (Suc k), Registered)"
  using assms
proof (induction rule: inc_induct)
  case base
  then show ?case
    by (simp add: register_loop.simps [of _ k] spaced_attempts_Suc)
next
  case (step n)
  then have "\<not> register_ok n" and "n < maxRetries - 1"
    by auto
  then have "register_loop register_ok n (log_before n) =
      register_loop register_ok (Suc n) (log_before (Suc n))"
    by (rule register_loop_failed_step)
  with step show ?case by simp
qed

lemma register_loop_exhausted:
  assumes "i \<le> maxRetries - 1" and "\<forall>j<maxRetries. \<not> register_ok j"
  shows "register_loop register_ok i (log_before i) = (spaced_attempts maxRetries, GaveUp)"
  using assms
proof (induction rule: inc_induct)
  case base
  define m where "m = maxRetries - 1"
  have mr: "maxRetries = Suc m" by (simp add: m_def maxRetries_def)
  from base have fails: "\<not> register_ok m" by (simp add: mr)
  have "register_loop register_ok m (log_before m) =
      register_loop register_ok (Suc m) (log_before m @ [Attempt (Suc m)])"
    using fails by (subst register_loop.simps) (simp add: mr)
  also have "\<dots> = (log_before m @ [Attempt (Suc m)], GaveUp)"
    by (subst register_loop.simps) (simp add: mr)
  finally show ?case
    by (simp add: m_def [symmetric] mr spaced_attempts_Suc)
next
  case (step n)
  then have "\<not> register_ok n" and "n < maxRetries - 1"
    by auto
  then have "register_loop register_ok n (log_before n) =
      register_loop register_ok (Suc n) (log_before (Suc n))"
    by (rule register_loop_failed_step)
  with step show ?case by simp
qed

lemma registration_count:
  "attempts (fst (registration register_ok)) =
     (if \<exists>k<maxRetries. register_ok k then Suc (LEAST k. register_ok k) else maxRetries)"
proof (cases "\<exists>k<maxRetries. register_ok k")
  case True
  then obtain k where k: "k < maxRetries" "register_ok k" by blast
  define k0 where "k0 = (LEAST k. register_ok k)"
  from k(2) have ok0: "register_ok k0" unfolding k0_def by (rule LeastI)
  from k(2) have "k0 \<le> k" unfolding k0_def by (rule Least_le)
  with k(1) have lt: "k0 < maxRetries" by simp
  have first: "\<forall>j<k0. \<not> register_ok j"
    unfolding k0_def using not_less_Least by blast
  from lt ok0 first have r: "registration register_ok = (spaced_attempts (Suc k0), Registered)"
    using register_loop_success [of 0 k0 register_ok] by (simp add: registration_def)
  show ?thesis by (simp only: r fst_conv attempts_spaced True if_True k0_def)
next
  case False
  then have "\<forall>j<maxRetries. \<not> register_ok j" by blast
  then have r: "registration register_ok = (spaced_attempts maxRetries, GaveUp)"
    using register_loop_exhausted [of 0 register_ok] by (simp add: registration_def)
  show ?thesis by (simp only: r fst_conv attempts_spaced False if_False)
qed

text \<open>
  C7. The loop makes its attempts one after the other. If iteration \<open>k\<close>
  (attempt \<open>k + 1\<close>, with \<open>k < 5\<close>) is the first whose call succeeds, the log
  is exactly the attempts 1 to \<open>k + 1\<close> with a 2-unit sleep between each two,
  nothing follows the successful attempt, and the outcome is \<open>Registered\<close>. If
  the first five calls all fail, the log is exactly the attempts 1 to 5 with a
  2-unit sleep between each two, and the loop ends in \<open>GaveUp\<close> and returns.
  For every sequence of responses the number of attempts is the position of
  the first success, capped at 5.
\<close>

theorem registration_attempts:
  "(k < maxRetries \<and> register_ok k \<and> (\<forall>j<k. \<not> register_ok j) \<longrightarrow>
      registration register_ok = (spaced_attempts (Suc k), Registered)
      \<and> attempts (fst (registration register_ok)) = Suc k)
   \<and> ((\<forall>j<maxRetries. \<not> register_ok j) \<longrightarrow>
      registration register_ok = (spaced_attempts 5, GaveUp)
      \<and> attempts (fst (registration register_ok)) = 5)
   \<and> attempts (fst (registration register_ok)) =
       (if \<exists>k<5. register_ok k then Suc (LEAST k. register_ok k) else 5)"
proof (intro conjI impI)
  assume "k < maxRetries \<and> register_ok k \<and> (\<forall>j<k. \<not> register_ok j)"
  then show r: "registration register_ok = (spaced_attempts (Suc k), Registered)"
    using register_loop_success [of 0 k register_ok] by (simp add: registration_def)
  show "attempts (fst (registration register_ok)) = Suc k"
    by (simp only: r fst_conv attempts_spaced)
next
  assume "\<forall>j<maxRetries. \<not> register_ok j"
  then show r: "registration register_ok = (spaced_attempts 5, GaveUp)"
    using register_loop_exhausted [of 0 register_ok] by (simp add: registration_def maxRetries_def)
  show "attempts (fst (registration register_ok)) = 5"
    by (simp only: r fst_conv attempts_spaced)
next
  show "attempts (fst (registration register_ok)) =
      (if \<exists>k<5. register_ok k then Suc (LEAST k. register_ok k) else 5)"
    by (simp only: registration_count maxRetries_def)
qed

text \<open>
  A directory that accepts the third call, and one that never accepts.
\<close>

theorem registration_attempts_witness:
  "registration (\<lambda>i. i = 2) = ([Attempt 1, Sleep 2, Attempt 2, Sleep 2, Attempt 3], Registered)
   \<and> attempts (fst (registration (\<lambda>i. i = 2))) = 3
   \<and> registration (\<lambda>i. False) =
       ([Attempt 1, Sleep 2, Attempt 2, Sleep 2, Attempt 3, Sleep 2, Attempt 4, Sleep 2, Attempt 5],
        GaveUp)
   \<and> attempts (fst (registration (\<lambda>i. False))) = 5"
proof -
  have third: "registration (\<lambda>i. i = 2) = (spaced_attempts (Suc 2), Registered)
      \<and> attempts (fst (registration (\<lambda>i. i = 2))) = Suc 2"
    by (rule registration_attempts [THEN conjunct1, THEN mp]) (simp add: maxRetries_def)
  have never: "registration (\<lambda>i. False) = (spaced_attempts 5, GaveUp)
      \<and> attempts (fst (registration (\<lambda>i. False))) = 5"
    by (rule registration_attempts [THEN conjunct2, THEN conjunct1, THEN mp]) simp
  have "spaced_attempts (Suc 2) = [Attempt 1, Sleep 2, Attempt 2, Sleep 2, Attempt 3]"
    and "spaced_attempts 5 =
      [Attempt 1, Sleep 2, Attempt 2, Sleep 2, Attempt 3, Sleep 2, Attempt 4, Sleep 2, Attempt 5]"
    by (simp_all add: eval_nat_numeral)
  with third never show ?thesis by simp
qed

end
